theory Spec2Isabelle
  imports Main
begin

section \<open>Placeholder formatting of weneda (placeholders.py)\<close>

subsection \<open>Errors and resolvers\<close>

text \<open>
  Every exception the module can raise is a value. \<open>ReError\<close> stands for the
  \<^verbatim>\<open>re.error\<close> of a regular expression that does not compile, \<open>ResolverError\<close> for
  whatever a placeholder function raises itself.
\<close>

datatype error = ValueError | AttributeError | TypeError | ReError | ResolverError string

text \<open>
  A placeholder function takes the raw body and the depth and returns a text or
  \<^verbatim>\<open>None\<close>, or raises. The value is turned into text with \<^verbatim>\<open>str\<close>; values are
  modelled as the text they print.
\<close>

type_synonym resolver = "string \<Rightarrow> nat \<Rightarrow> error + string option"

subsection \<open>Python slices\<close>

text \<open>
  \<^verbatim>\<open>s[a:b]\<close> for indices that are not negative: the elements from \<open>a\<close> up to, not
  including, \<open>b\<close>, clipped to the text, empty when \<open>b \<le> a\<close>.
\<close>

definition slice :: "'a list \<Rightarrow> nat \<Rightarrow> nat \<Rightarrow> 'a list" where
  "slice s a b = take (b - a) (drop a s)"

text \<open>
  \<^verbatim>\<open>s[:k]\<close> for an integer \<open>k\<close>: a negative \<open>k\<close> counts from the end of the text.
\<close>

definition slice_upto :: "'a list \<Rightarrow> int \<Rightarrow> 'a list" where
  "slice_upto s k = (if k < 0 then take (length s - nat (- k)) s else take (nat k) s)"

subsection \<open>Placeholder\<close>

text \<open>
  The attributes of a \<^verbatim>\<open>Placeholder\<close> object. The class defines \<^verbatim>\<open>name\<close>,
  \<^verbatim>\<open>syntax\<close>, \<^verbatim>\<open>pattern\<close> and the method \<^verbatim>\<open>process\<close>; it defines no attribute
  \<^verbatim>\<open>func\<close>, so \<open>ph_func\<close> is \<open>None\<close> on every object unless a caller has set
  the attribute by hand. A compiled pattern is the predicate "\<^verbatim>\<open>pattern.match\<close>
  finds a match at the start of the text". The back reference \<^verbatim>\<open>formatter\<close> is
  never read and is left out.
\<close>

record placeholder =
  ph_name :: string
  ph_syntax :: "string option"
  ph_pattern :: "(string \<Rightarrow> bool) option"
  ph_process :: resolver
  ph_func :: "resolver option"

text \<open>\<^verbatim>\<open>Placeholder.process\<close>: the method of the class returns \<^verbatim>\<open>None\<close>.\<close>

definition Placeholder_process :: resolver where
  "Placeholder_process nm depth = Inr None"

text \<open>
  \<^verbatim>\<open>Placeholder.__init__\<close>. \<^verbatim>\<open>re.compile\<close> is a parameter: it returns the match
  predicate of the pattern, or \<open>None\<close> when it raises \<^verbatim>\<open>re.error\<close>.
\<close>

type_synonym compiler = "string \<Rightarrow> (string \<Rightarrow> bool) option"

definition Placeholder_init ::
  "compiler \<Rightarrow> string \<Rightarrow> string option \<Rightarrow> string option \<Rightarrow> error + placeholder" where
  "Placeholder_init re_compile nm syn regex =
    (let mk = (\<lambda>p. \<lparr>ph_name = nm, ph_syntax = syn, ph_pattern = p,
                      ph_process = Placeholder_process, ph_func = None\<rparr>)
     in case regex of
          None \<Rightarrow> Inr (mk None)
        | Some r \<Rightarrow>
            if r = [] then Inr (mk None)
            else (case re_compile r of
                    None \<Rightarrow> Inl ReError
                  | Some p \<Rightarrow> Inr (mk (Some p))))"

subsection \<open>Declaring placeholders on a class\<close>

record placeholder_args =
  arg_name :: string
  arg_syntax :: "string option"
  arg_regex :: "string option"

text \<open>
  A member of a class dictionary: a function decorated with \<^verbatim>\<open>placeholder\<close> (it
  carries \<^verbatim>\<open>__placeholder_args__\<close>) or anything else.
\<close>

datatype member = PlaceholderFunc placeholder_args resolver | OtherMember

text \<open>
  The decorator \<^verbatim>\<open>placeholder(name, syntax, regex)\<close> applied to a function whose
  \<^verbatim>\<open>__name__\<close> is \<open>fname\<close>.
\<close>

definition placeholder_decorator ::
  "string option \<Rightarrow> string option \<Rightarrow> string option \<Rightarrow> string \<Rightarrow> resolver \<Rightarrow> member" where
  "placeholder_decorator nm syn regex fname f =
    PlaceholderFunc \<lparr>arg_name = (case nm of Some n \<Rightarrow> n | None \<Rightarrow> fname),
                     arg_syntax = syn, arg_regex = regex\<rparr> f"

text \<open>
  A class is \<^verbatim>\<open>Formatter\<close> itself or a subclass, given by the dictionaries of the
  classes of its \<^verbatim>\<open>__mro__\<close> (the class first, each dictionary as the list of its
  values).
\<close>

datatype formatter_class = FormatterBase | Subclass "member list list"

fun has_placeholder_args :: "member \<Rightarrow> bool" where
  "has_placeholder_args (PlaceholderFunc a f) = True"
| "has_placeholder_args OtherMember = False"

text \<open>\<^verbatim>\<open>Formatter.__init_subclass__\<close>: the value it stores in \<^verbatim>\<open>__placeholder_items__\<close>.\<close>

definition init_subclass :: "member list list \<Rightarrow> member list" where
  "init_subclass mro = filter has_placeholder_args (concat (rev mro))"

text \<open>
  The class attribute \<^verbatim>\<open>__placeholder_items__\<close>: only \<^verbatim>\<open>__init_subclass__\<close> assigns
  it, and Python runs that hook for subclasses only.
\<close>

fun placeholder_items :: "formatter_class \<Rightarrow> member list option" where
  "placeholder_items FormatterBase = None"
| "placeholder_items (Subclass mro) = Some (init_subclass mro)"

subsection \<open>Formatter\<close>

record formatter =
  opener :: string
  closer :: string
  escape :: "string option"
  placeholders :: "placeholder list"

text \<open>
  The loop at the end of \<^verbatim>\<open>Formatter.__init__\<close>: one \<^verbatim>\<open>Placeholder\<close> for each
  collected function, with \<^verbatim>\<open>process\<close> set to the function bound to the formatter
  (the functions of the model are already bound). Reading \<^verbatim>\<open>__placeholder_args__\<close>
  of a member that has none raises \<^verbatim>\<open>AttributeError\<close>.
\<close>

fun make_placeholders :: "compiler \<Rightarrow> member list \<Rightarrow> error + placeholder list" where
  "make_placeholders re_compile [] = Inr []"
| "make_placeholders re_compile (OtherMember # ms) = Inl AttributeError"
| "make_placeholders re_compile (PlaceholderFunc a f # ms) =
    (case Placeholder_init re_compile (arg_name a) (arg_syntax a) (arg_regex a) of
       Inl e \<Rightarrow> Inl e
     | Inr ph \<Rightarrow>
        (case make_placeholders re_compile ms of
           Inl e \<Rightarrow> Inl e
         | Inr phs \<Rightarrow> Inr (ph\<lparr>ph_process := f\<rparr> # phs)))"

text \<open>
  \<^verbatim>\<open>Formatter.__init__\<close> called on an object of class \<open>cls\<close>. The arguments are
  texts (\<open>escape\<close> may be \<^verbatim>\<open>None\<close>), so the \<^verbatim>\<open>isinstance\<close> tests hold.
\<close>

definition Formatter_init ::
  "compiler \<Rightarrow> formatter_class \<Rightarrow> string \<Rightarrow> string \<Rightarrow> string option
    \<Rightarrow> error + formatter" where
  "Formatter_init re_compile cls op cl esc =
    (if op = [] then Inl ValueError
     else if cl = [] then Inl ValueError
     else if esc = Some [] then Inl ValueError
     else if esc \<in> {Some op, Some cl} then Inl ValueError
     else (case placeholder_items cls of
             None \<Rightarrow> Inl AttributeError
           | Some items \<Rightarrow>
              (case make_placeholders re_compile items of
                 Inl e \<Rightarrow> Inl e
               | Inr phs \<Rightarrow>
                   Inr \<lparr>opener = op, closer = cl, escape = esc, placeholders = phs\<rparr>)))"

text \<open>\<^verbatim>\<open>Formatter.add_placeholder\<close> (the argument is a \<^verbatim>\<open>Placeholder\<close> by its type).\<close>

definition add_placeholder :: "formatter \<Rightarrow> placeholder \<Rightarrow> formatter" where
  "add_placeholder fm ph = fm\<lparr>placeholders := placeholders fm @ [ph]\<rparr>"

text \<open>
  \<^verbatim>\<open>Formatter.process\<close>: the first placeholder without a pattern, or whose pattern
  matches, decides. The method calls the attribute \<^verbatim>\<open>func\<close> of that placeholder;
  looking up an attribute that is not there raises \<^verbatim>\<open>AttributeError\<close>.
\<close>

fun process_placeholders :: "placeholder list \<Rightarrow> resolver" where
  "process_placeholders [] nm depth = Inr None"
| "process_placeholders (ph # phs) nm depth =
    (if (case ph_pattern ph of None \<Rightarrow> True | Some p \<Rightarrow> p nm)
     then (case ph_func ph of
             None \<Rightarrow> Inl AttributeError
           | Some f \<Rightarrow> f nm depth)
     else process_placeholders phs nm depth)"

definition Formatter_process :: "formatter \<Rightarrow> resolver" where
  "Formatter_process fm = process_placeholders (placeholders fm)"

subsection \<open>The scan loop of \<^verbatim>\<open>Formatter.format\<close>\<close>

text \<open>
  The local variables of \<^verbatim>\<open>format\<close>. The stack is a Python list: the last element
  is the top. \<open>calls\<close> is not a variable of the source: it records, in order, the
  arguments of every call of \<^verbatim>\<open>self.process\<close>, so that theorems can speak about
  what the resolvers are asked.
\<close>

record scan_state =
  current :: string
  prev_escape :: bool
  stack :: "nat list"
  cache :: "string \<rightharpoonup> string"
  index :: nat
  calls :: "(string \<times> nat) list"

text \<open>
  \<^verbatim>\<open>''.join((current[: index - n], current[index:]))\<close>: the source writes this
  three times, to drop the escape string in front of \<open>index\<close>.
\<close>

definition cut_before :: "string \<Rightarrow> nat \<Rightarrow> nat \<Rightarrow> string" where
  "cut_before cur i n = slice_upto cur (int i - int n) @ drop i cur"

text \<open>\<^verbatim>\<open>escape_len = len(escape) if escape else 0\<close>\<close>

definition escape_len :: "formatter \<Rightarrow> nat" where
  "escape_len fm = (case escape fm of None \<Rightarrow> 0 | Some e \<Rightarrow> if e = [] then 0 else length e)"

text \<open>\<^verbatim>\<open>escape and current[index : index + escape_len] == escape\<close>\<close>

definition escape_at :: "formatter \<Rightarrow> string \<Rightarrow> nat \<Rightarrow> bool" where
  "escape_at fm cur i =
    (case escape fm of
       None \<Rightarrow> False
     | Some e \<Rightarrow> e \<noteq> [] \<and> slice cur i (i + escape_len fm) = e)"

text \<open>
  \<^verbatim>\<open>str(value) if value is not None else ''.join((opener, ph, closer))\<close>
\<close>

definition replacement_of :: "formatter \<Rightarrow> string \<Rightarrow> string option \<Rightarrow> string" where
  "replacement_of fm ph v = (case v of Some s \<Rightarrow> s | None \<Rightarrow> opener fm @ ph @ closer fm)"

text \<open>
  The replacement of the placeholder in the text and the new index, once the
  replacement is known (the end of the closer branch).
\<close>

definition splice :: "formatter \<Rightarrow> scan_state \<Rightarrow> nat \<Rightarrow> string \<Rightarrow> scan_state" where
  "splice fm st open_index replacement =
    st\<lparr>current := take open_index (current st) @ replacement
                    @ drop (index st + length (closer fm)) (current st),
       index := open_index + length replacement\<rparr>"

text \<open>
  One pass through the body of the \<^verbatim>\<open>while\<close> loop. \<open>P\<close> is the method
  \<^verbatim>\<open>self.process\<close> (a subclass may override it). The result is the state after
  the pass, or the exception that a call of \<open>P\<close> raised, with the calls made so
  far.
\<close>

definition step ::
  "resolver \<Rightarrow> formatter \<Rightarrow> scan_state \<Rightarrow> (error \<times> (string \<times> nat) list) + scan_state" where
  "step P fm st =
    (let cur = current st; i = index st in
     if escape_at fm cur i then
       Inr (st\<lparr>current := (if prev_escape st then cut_before cur i (escape_len fm) else cur),
               prev_escape := \<not> prev_escape st,
               index := i + escape_len fm\<rparr>)
     else if slice cur i (i + length (opener fm)) = opener fm
             \<and> \<not> (opener fm = closer fm \<and> stack st \<noteq> []) then
       (if \<not> prev_escape st
        then Inr (st\<lparr>stack := stack st @ [i], index := i + length (opener fm)\<rparr>)
        else Inr (st\<lparr>prev_escape := False,
                     current := cut_before cur i (escape_len fm),
                     index := i + length (opener fm)\<rparr>))
     else if slice cur i (i + length (closer fm)) = closer fm then
       (if \<not> prev_escape st then
          (if stack st \<noteq> [] then
             (let open_index = last (stack st);
                  st1 = st\<lparr>stack := butlast (stack st)\<rparr>;
                  ph = slice cur (open_index + length (opener fm)) i
              in case cache st1 ph of
                   Some replacement \<Rightarrow> Inr (splice fm st1 open_index replacement)
                 | None \<Rightarrow>
                    (let depth = length (stack st1);
                         cs = calls st1 @ [(ph, depth)]
                     in case P ph depth of
                          Inl e \<Rightarrow> Inl (e, cs)
                        | Inr v \<Rightarrow>
                           (let replacement = replacement_of fm ph v
                            in Inr (splice fm
                                     (st1\<lparr>cache := (cache st1)(ph \<mapsto> replacement), calls := cs\<rparr>)
                                     open_index replacement))))
           else Inr (st\<lparr>index := i + length (closer fm)\<rparr>))
        else
          (case escape fm of
             None \<Rightarrow> Inl (TypeError, calls st)
           | Some e \<Rightarrow>
               Inr (st\<lparr>prev_escape := False, current := cut_before cur i (length e)\<rparr>)))
     else Inr (st\<lparr>index := i + 1\<rparr>))"

text \<open>
  The \<^verbatim>\<open>while\<close> loop. It need not end (with an empty opener it does not), so the
  result is an option: \<open>None\<close> is a loop that runs forever. A result is the text
  returned or the exception raised, and the calls of \<open>P\<close> in order.
\<close>

partial_function (option) scan ::
  "resolver \<Rightarrow> formatter \<Rightarrow> scan_state \<Rightarrow> ((error + string) \<times> (string \<times> nat) list) option" where
  "scan P fm st =
    (if index st < length (current st) then
       (case step P fm st of
          Inl (e, cs) \<Rightarrow> Some (Inl e, cs)
        | Inr st' \<Rightarrow> scan P fm st')
     else Some (Inr (current st), calls st))"

definition initial :: "string \<Rightarrow> scan_state" where
  "initial text = \<lparr>current = text, prev_escape = False, stack = [], cache = Map.empty,
                   index = 0, calls = []\<rparr>"

text \<open>\<^verbatim>\<open>format\<close> with \<open>P\<close> for \<^verbatim>\<open>self.process\<close>.\<close>

definition format_with ::
  "resolver \<Rightarrow> formatter \<Rightarrow> string \<Rightarrow> ((error + string) \<times> (string \<times> nat) list) option" where
  "format_with P fm text = scan P fm (initial text)"

text \<open>\<^verbatim>\<open>Formatter.format\<close> of a class that does not override \<^verbatim>\<open>process\<close>.\<close>

definition Formatter_format ::
  "formatter \<Rightarrow> string \<Rightarrow> ((error + string) \<times> (string \<times> nat) list) option" where
  "Formatter_format fm text = format_with (Formatter_process fm) fm text"

subsection \<open>Example data\<close>

text \<open>The escape string of the default arguments, one backslash.\<close>

definition backslash :: string where
  "backslash = [CHR 0x5C]"

text \<open>
  A formatter with the default arguments of \<^verbatim>\<open>Formatter.__init__\<close>
  (\<^verbatim>\<open>opener='{', closer='}', escape='\\'\<close>) and the given placeholders.
\<close>

definition default_formatter :: "placeholder list \<Rightarrow> formatter" where
  "default_formatter phs =
    \<lparr>opener = ''{'', closer = ''}'', escape = Some backslash, placeholders = phs\<rparr>"

text \<open>A formatter whose opener and closer are both the bar.\<close>

definition bar_formatter :: "placeholder list \<Rightarrow> formatter" where
  "bar_formatter phs =
    \<lparr>opener = ''|'', closer = ''|'', escape = Some backslash, placeholders = phs\<rparr>"

text \<open>
  A stand-in for \<^verbatim>\<open>re.compile\<close> on patterns made of ordinary characters: such a
  pattern matches the texts that start with it.
\<close>

definition literal_compile :: compiler where
  "literal_compile r = Some (\<lambda>s. take (length r) s = r)"

text \<open>Resolvers for the examples: one that answers always, one that never does.\<close>

definition always_X :: resolver where
  "always_X nm depth = Inr (Some ''X'')"

definition no_value :: resolver where
  "no_value nm depth = Inr None"

text \<open>
  A subclass of \<^verbatim>\<open>Formatter\<close> that declares one placeholder function, without a
  pattern: \<^verbatim>\<open>@placeholder() async def greet(self, name, depth): return 'X'\<close>.
\<close>

definition greeter_class :: formatter_class where
  "greeter_class = Subclass [[placeholder_decorator None None None ''greet'' always_X]]"

text \<open>
  A resolver that answers only bodies that start with \<^verbatim>\<open>outer\<close> (a placeholder
  declared with \<^verbatim>\<open>regex='outer'\<close>).
\<close>

definition outer_only :: resolver where
  "outer_only nm depth = (if take 5 nm = ''outer'' then Inr (Some ''O'') else Inr None)"

subsection \<open>Predicates of the proofs\<close>

text \<open>The token occurs in the text: at some index the test of the scan loop succeeds.\<close>

definition contains :: "string \<Rightarrow> string \<Rightarrow> bool" where
  "contains cur tok = (\<exists>i<length cur. slice cur i (i + length tok) = tok)"

text \<open>What the checks of \<^verbatim>\<open>__init__\<close> give the scan loop: no token is empty.\<close>

definition well_formed :: "formatter \<Rightarrow> bool" where
  "well_formed fm = (opener fm \<noteq> [] \<and> closer fm \<noteq> [] \<and> escape fm \<noteq> Some [])"

text \<open>
  While \<open>prev_escape\<close> is set there is an escape string, and the index has moved
  past one: the slice that drops it does not start at a negative index.
\<close>

definition escape_pending_ok :: "formatter \<Rightarrow> scan_state \<Rightarrow> bool" where
  "escape_pending_ok fm st =
    (prev_escape st \<longrightarrow> escape fm \<noteq> None \<and> escape_len fm \<le> index st)"

text \<open>Every body that was passed to \<open>P\<close> is in the cache, and none was passed twice.\<close>

definition once_inv :: "scan_state \<Rightarrow> bool" where
  "once_inv st =
    (distinct (map fst (calls st)) \<and> (\<forall>c\<in>set (calls st). cache st (fst c) \<noteq> None))"

text \<open>At most one placeholder is open, and every call had depth 0.\<close>

definition flat_inv :: "scan_state \<Rightarrow> bool" where
  "flat_inv st = (length (stack st) \<le> 1 \<and> (\<forall>c\<in>set (calls st). snd c = 0))"

text \<open>
  The loop has changed nothing and called nothing, and every open position on the
  stack is behind the index and holds an opener.
\<close>

definition literal_inv :: "formatter \<Rightarrow> string \<Rightarrow> scan_state \<Rightarrow> bool" where
  "literal_inv fm text st =
    (current st = text \<and> \<not> prev_escape st \<and> calls st = [] \<and>
     (\<forall>p\<in>set (stack st). p < index st \<and> slice text p (p + length (opener fm)) = opener fm))"

section \<open>Properties\<close>

subsection \<open>The loop ends\<close>

lemma length_cut_before:
  "n \<le> i \<Longrightarrow> i \<le> length cur \<Longrightarrow> length (cut_before cur i n) = length cur - n"
  by (simp add: cut_before_def slice_upto_def)

lemma escape_len_Some: "escape fm = Some e \<Longrightarrow> escape_len fm = length e"
  by (simp add: escape_len_def)

lemma escape_at_pos: "escape_at fm cur i \<Longrightarrow> 0 < escape_len fm \<and> escape fm \<noteq> None"
  by (auto simp: escape_at_def escape_len_def split: option.splits)

text \<open>Each pass brings the index closer to the end of the text.\<close>

lemma step_decreases:
  assumes wf: "well_formed fm" and ok: "escape_pending_ok fm st"
    and lt: "index st < length (current st)" and st: "step P fm st = Inr st'"
  shows "length (current st') - index st' < length (current st) - index st
         \<and> escape_pending_ok fm st'"
proof -
  obtain lo where lo: "length (opener fm) = Suc lo"
    using wf by (cases "opener fm") (simp_all add: well_formed_def)
  obtain lc where lc: "length (closer fm) = Suc lc"
    using wf by (cases "closer fm") (simp_all add: well_formed_def)
  have le: "\<And>e. escape fm = Some e \<Longrightarrow> \<exists>n. length e = Suc n"
    using wf by (case_tac e) (auto simp: well_formed_def)
  show ?thesis
    using st lt ok le
    by (auto simp: step_def Let_def escape_pending_ok_def length_cut_before splice_def
          escape_len_Some min_def lo lc
        split: if_splits option.splits sum.splits dest!: escape_at_pos)
qed

text \<open>
  The proof rule of the loop: it ends, and a property that every pass keeps holds
  of the result.
\<close>

lemma scan_total:
  assumes wf: "well_formed fm"
    and pres: "\<And>s s'. I s \<Longrightarrow> escape_pending_ok fm s \<Longrightarrow> index s < length (current s)
                  \<Longrightarrow> step P fm s = Inr s' \<Longrightarrow> I s'"
    and err: "\<And>s e cs. I s \<Longrightarrow> escape_pending_ok fm s \<Longrightarrow> index s < length (current s)
                  \<Longrightarrow> step P fm s = Inl (e, cs) \<Longrightarrow> Q (Inl e, cs)"
    and fin: "\<And>s. I s \<Longrightarrow> \<not> index s < length (current s) \<Longrightarrow> Q (Inr (current s), calls s)"
  shows "I st \<Longrightarrow> escape_pending_ok fm st \<Longrightarrow> \<exists>r. scan P fm st = Some r \<and> Q r"
proof (induction "length (current st) - index st" arbitrary: st rule: less_induct)
  case less
  show ?case
  proof (cases "index st < length (current st)")
    case False
    then show ?thesis
      using fin [OF less.prems(1)] by (subst scan.simps) simp
  next
    case True
    show ?thesis
    proof (cases "step P fm st")
      case (Inl a)
      obtain e cs where a: "a = (e, cs)" by (cases a)
      have "Q (Inl e, cs)"
        using err [OF less.prems True] Inl a by simp
      then show ?thesis
        using True Inl a by (subst scan.simps) simp
    next
      case (Inr st')
      have d: "length (current st') - index st' < length (current st) - index st"
        and ok': "escape_pending_ok fm st'"
        using step_decreases [OF wf less.prems(2) True Inr] by simp_all
      have "I st'" using pres [OF less.prems True Inr] .
      then have "\<exists>r. scan P fm st' = Some r \<and> Q r"
        using less.hyps [OF d] ok' by blast
      then show ?thesis
        using True Inr by (subst scan.simps) simp
    qed
  qed
qed

text \<open>A pass raises only what a call of \<open>P\<close> on a body not yet cached raises.\<close>

lemma step_error:
  assumes "escape_pending_ok fm st" and "step P fm st = Inl (e, cs)"
  shows "\<exists>ph. cache st ph = None \<and> P ph (length (stack st) - 1) = Inl e
              \<and> cs = calls st @ [(ph, length (stack st) - 1)]"
  using assms
  by (auto simp: step_def Let_def escape_pending_ok_def split: if_splits option.splits sum.splits)

lemma initial_ok: "escape_pending_ok fm (initial text)"
  by (simp add: escape_pending_ok_def initial_def)

lemma init_well_formed:
  "Formatter_init rc cls op cl esc = Inr fm \<Longrightarrow> well_formed fm"
  by (auto simp: Formatter_init_def well_formed_def split: if_splits option.splits sum.splits)

lemma init_tokens:
  "Formatter_init rc cls op cl esc = Inr fm \<Longrightarrow> opener fm = op \<and> closer fm = cl \<and> escape fm = esc"
  by (auto simp: Formatter_init_def split: if_splits option.splits sum.splits)

subsection \<open>Evaluating the loop on a given text\<close>

lemmas scan_eval = format_with_def initial_def scan.simps step_def escape_at_def escape_len_def
  slice_def splice_def replacement_of_def cut_before_def slice_upto_def Let_def
  default_formatter_def bar_formatter_def backslash_def

subsection \<open>Invariants of the loop\<close>

lemma once_step:
  "once_inv s \<Longrightarrow> step P fm s = Inr s' \<Longrightarrow> once_inv s'"
  by (fastforce simp: step_def Let_def once_inv_def splice_def
        split: if_splits option.splits sum.splits)

lemma calls_distinct:
  assumes "well_formed fm"
  shows "\<exists>r. format_with P fm text = Some r \<and> distinct (map fst (snd r))"
  unfolding format_with_def
proof (rule scan_total [where I = once_inv and Q = "\<lambda>r. distinct (map fst (snd r))", OF assms])
  show "once_inv (initial text)" by (simp add: once_inv_def initial_def)
  show "escape_pending_ok fm (initial text)" by (rule initial_ok)
next
  fix s s' assume "once_inv s" "step P fm s = Inr s'"
  then show "once_inv s'" by (rule once_step)
next
  fix s e cs assume "once_inv s" "escape_pending_ok fm s" "step P fm s = Inl (e, cs)"
  then show "distinct (map fst (snd (Inl e :: error + string, cs)))"
    using step_error [of fm s P e cs] by (fastforce simp: once_inv_def)
next
  fix s assume "once_inv s"
  then show "distinct (map fst (snd (Inr (current s) :: error + string, calls s)))"
    by (simp add: once_inv_def)
qed

lemma flat_step:
  "opener fm = closer fm \<Longrightarrow> flat_inv s \<Longrightarrow> step P fm s = Inr s' \<Longrightarrow> flat_inv s'"
  by (auto simp: step_def Let_def flat_inv_def splice_def
        split: if_splits option.splits sum.splits)

lemma same_token_flat:
  assumes "well_formed fm" and same: "opener fm = closer fm"
  shows "\<exists>r. format_with P fm text = Some r \<and> (\<forall>c\<in>set (snd r). snd c = 0)"
  unfolding format_with_def
proof (rule scan_total [where I = flat_inv and Q = "\<lambda>r. \<forall>c\<in>set (snd r). snd c = 0",
        OF assms(1)])
  show "flat_inv (initial text)" by (simp add: flat_inv_def initial_def)
  show "escape_pending_ok fm (initial text)" by (rule initial_ok)
next
  fix s s' assume "flat_inv s" "step P fm s = Inr s'"
  then show "flat_inv s'" using same by (simp add: flat_step)
next
  fix s e cs assume "flat_inv s" "escape_pending_ok fm s" "step P fm s = Inl (e, cs)"
  then show "\<forall>c\<in>set (snd (Inl e :: error + string, cs)). snd c = 0"
    using step_error [of fm s P e cs] by (auto simp: flat_inv_def)
next
  fix s assume "flat_inv s"
  then show "\<forall>c\<in>set (snd (Inr (current s) :: error + string, calls s)). snd c = 0"
    by (simp add: flat_inv_def)
qed

subsection \<open>Texts whose delimiters stay literal\<close>

lemma literal_step:
  assumes wf: "well_formed fm"
    and noesc: "\<forall>i<length text. \<not> escape_at fm text i"
    and order: "\<forall>i<length text. \<forall>j<length text.
        slice text i (i + length (opener fm)) = opener fm \<longrightarrow>
        slice text j (j + length (closer fm)) = closer fm \<longrightarrow> j < i"
    and inv: "literal_inv fm text s" and lt: "index s < length (current s)"
  shows "\<exists>s'. step P fm s = Inr s' \<and> literal_inv fm text s'"
proof -
  have cur: "current s = text" and pe: "\<not> prev_escape s" and cs: "calls s = []"
    and stk: "\<And>p. p \<in> set (stack s) \<Longrightarrow> p < index s \<and> slice text p (p + length (opener fm)) = opener fm"
    using inv by (auto simp: literal_inv_def)
  have i: "index s < length text" using lt cur by simp
  have ne: "\<not> escape_at fm text (index s)" using noesc i by simp
  obtain n where lo: "length (opener fm) = Suc n"
    using wf by (cases "opener fm") (simp_all add: well_formed_def)
  have empty: "stack s = []" if c: "slice text (index s) (index s + length (closer fm)) = closer fm"
  proof (rule ccontr)
    assume "stack s \<noteq> []"
    then obtain p where p: "p \<in> set (stack s)" by (cases "stack s") auto
    have pi: "p < index s" and po: "slice text p (p + length (opener fm)) = opener fm"
      using stk [OF p] by simp_all
    have "p < length text" using pi i by simp
    then have "index s < p" using order i c po by blast
    then show False using pi by simp
  qed
  show ?thesis
  proof (cases "slice text (index s) (index s + length (opener fm)) = opener fm
                 \<and> \<not> (opener fm = closer fm \<and> stack s \<noteq> [])")
    case True
    have eq: "step P fm s = Inr (s\<lparr>stack := stack s @ [index s], index := index s + length (opener fm)\<rparr>)"
      using True ne pe cur by (simp add: step_def Let_def)
    have "literal_inv fm text (s\<lparr>stack := stack s @ [index s], index := index s + length (opener fm)\<rparr>)"
      unfolding literal_inv_def
    proof (intro conjI ballI)
      fix p assume "p \<in> set (stack (s\<lparr>stack := stack s @ [index s], index := index s + length (opener fm)\<rparr>))"
      then have "p \<in> set (stack s) \<or> p = index s" by auto
      then have "p \<le> index s" using stk [of p] by auto
      then show "p < index (s\<lparr>stack := stack s @ [index s], index := index s + length (opener fm)\<rparr>)"
        by (simp add: lo)
    next
      fix p assume "p \<in> set (stack (s\<lparr>stack := stack s @ [index s], index := index s + length (opener fm)\<rparr>))"
      then have "p \<in> set (stack s) \<or> p = index s" by auto
      then show "slice text p (p + length (opener fm)) = opener fm"
        using stk [of p] True by blast
    qed (simp_all add: cur pe cs)
    then show ?thesis using eq by simp
  next
    case False
    show ?thesis
    proof (cases "slice text (index s) (index s + length (closer fm)) = closer fm")
      case True
      have e: "stack s = []" using empty [OF True] .
      have eq: "step P fm s = Inr (s\<lparr>index := index s + length (closer fm)\<rparr>)"
        using True False ne pe cur e by (simp add: step_def Let_def)
      have "literal_inv fm text (s\<lparr>index := index s + length (closer fm)\<rparr>)"
        by (simp add: literal_inv_def cur pe cs e)
      then show ?thesis using eq by simp
    next
      case c: False
      have o: "slice text (index s) (index s + length (opener fm)) \<noteq> opener fm"
        using c False by metis
      have eq: "step P fm s = Inr (s\<lparr>index := index s + 1\<rparr>)"
        by (simp add: step_def Let_def cur ne pe c o)
      have "literal_inv fm text (s\<lparr>index := index s + 1\<rparr>)"
        unfolding literal_inv_def
      proof (intro conjI ballI)
        fix p assume "p \<in> set (stack (s\<lparr>index := index s + 1\<rparr>))"
        then have p: "p \<in> set (stack s)" by simp
        show "p < index (s\<lparr>index := index s + 1\<rparr>)" using stk [OF p] by simp
        show "slice text p (p + length (opener fm)) = opener fm" using stk [OF p] by simp
      qed (simp_all add: cur pe cs)
      then show ?thesis using eq by simp
    qed
  qed
qed


lemma scan_literal:
  assumes wf: "well_formed fm"
    and noesc: "\<forall>i<length text. \<not> escape_at fm text i"
    and order: "\<forall>i<length text. \<forall>j<length text.
        slice text i (i + length (opener fm)) = opener fm \<longrightarrow>
        slice text j (j + length (closer fm)) = closer fm \<longrightarrow> j < i"
  shows "format_with P fm text = Some (Inr text, [])"
proof -
  have "\<exists>r. scan P fm (initial text) = Some r \<and> r = (Inr text, [])"
  proof (rule scan_total [where I = "literal_inv fm text", OF wf])
    show "literal_inv fm text (initial text)" by (simp add: literal_inv_def initial_def)
    show "escape_pending_ok fm (initial text)" by (rule initial_ok)
  next
    fix s s' assume a: "literal_inv fm text s" "index s < length (current s)"
      and b: "step P fm s = Inr s'"
    obtain s2 where "step P fm s = Inr s2" and "literal_inv fm text s2"
      using literal_step [OF wf noesc order a, of P] by blast
    then show "literal_inv fm text s'" using b by simp
  next
    fix s e cs assume a: "literal_inv fm text s" "index s < length (current s)"
      and b: "step P fm s = Inl (e, cs)"
    obtain s2 where "step P fm s = Inr s2"
      using literal_step [OF wf noesc order a, of P] by blast
    then show "(Inl e, cs) = (Inr text, [])" using b by simp
  next
    fix s assume "literal_inv fm text s"
    then show "(Inr (current s), calls s) = (Inr text, [])"
      by (simp add: literal_inv_def)
  qed
  then show ?thesis by (simp add: format_with_def)
qed


lemma no_escape_at:
  assumes ne: "\<forall>e. escape fm = Some e \<longrightarrow> \<not> contains text e"
  shows "\<forall>i<length text. \<not> escape_at fm text i"
proof (intro allI impI notI)
  fix i assume i: "i < length text" and at: "escape_at fm text i"
  obtain e where e: "escape fm = Some e" and s: "slice text i (i + escape_len fm) = e"
    using at by (cases "escape fm") (simp_all add: escape_at_def)
  have "slice text i (i + length e) = e"
    using s escape_len_Some [OF e] by simp
  then have "contains text e"
    unfolding contains_def using i by blast
  then show False using ne e by simp
qed

lemma contains_empty: "text \<noteq> [] \<Longrightarrow> contains text []"
proof -
  assume "text \<noteq> []"
  then have "0 < length text \<and> slice text 0 (0 + length ([] :: string)) = []"
    by (simp add: slice_def)
  then show ?thesis
    unfolding contains_def by blast
qed

text \<open>
  A text in which no closer stands behind an opener, and no escape string occurs,
  comes back unchanged, without a call of \<open>P\<close>.
\<close>

lemma literal_text_unchanged:
  assumes wf: "well_formed fm"
    and ne: "\<forall>e. escape fm = Some e \<longrightarrow> \<not> contains text e"
    and order: "\<forall>i<length text. \<forall>j<length text.
        slice text i (i + length (opener fm)) = opener fm \<longrightarrow>
        slice text j (j + length (closer fm)) = closer fm \<longrightarrow> j < i"
  shows "format_with P fm text = Some (Inr text, [])"
  by (rule scan_literal [OF wf no_escape_at [OF ne] order])

subsection \<open>The loop fails only when a resolver fails\<close>

lemma fails_only_by_resolver:
  assumes "well_formed fm"
  shows "\<exists>r. format_with P fm text = Some r \<and>
     (\<forall>e. fst r = Inl e \<longrightarrow>
        snd r \<noteq> [] \<and> P (fst (last (snd r))) (snd (last (snd r))) = Inl e)"
  unfolding format_with_def
proof (rule scan_total [where I = "\<lambda>s. True", OF assms])
  show "escape_pending_ok fm (initial text)" by (rule initial_ok)
next
  fix s e cs assume "escape_pending_ok fm s" "step P fm s = Inl (e, cs)"
  then obtain ph where "P ph (length (stack s) - 1) = Inl e"
    and "cs = calls s @ [(ph, length (stack s) - 1)]"
    using step_error [of fm s P e cs] by blast
  then show "\<forall>e'. fst (Inl e :: error + string, cs) = Inl e' \<longrightarrow>
     snd (Inl e :: error + string, cs) \<noteq> [] \<and>
     P (fst (last (snd (Inl e :: error + string, cs))))
       (snd (last (snd (Inl e :: error + string, cs)))) = Inl e'"
    by simp
qed simp_all

subsection \<open>The constructor\<close>

lemma make_placeholders_no_ValueError:
  "make_placeholders rc ms \<noteq> Inl ValueError"
  by (induction rc ms rule: make_placeholders.induct)
     (auto simp: Placeholder_init_def split: sum.splits option.splits if_splits)

lemma make_placeholders_ok:
  assumes "\<forall>m\<in>set ms. \<forall>a f r. m = PlaceholderFunc a f \<longrightarrow> arg_regex a = Some r \<longrightarrow> r \<noteq> []
              \<longrightarrow> rc r \<noteq> None"
    and "\<forall>m\<in>set ms. has_placeholder_args m"
  shows "\<exists>phs. make_placeholders rc ms = Inr phs \<and> length phs = length ms"
  using assms
proof (induction rc ms rule: make_placeholders.induct)
  case (1 re_compile)
  then show ?case by simp
next
  case (2 re_compile ms)
  then show ?case by simp
next
  case (3 re_compile a f ms)
  have "\<forall>r. arg_regex a = Some r \<longrightarrow> r \<noteq> [] \<longrightarrow> re_compile r \<noteq> None"
    using "3.prems"(1) by simp
  then have "\<exists>ph. Placeholder_init re_compile (arg_name a) (arg_syntax a) (arg_regex a) = Inr ph"
    by (cases "arg_regex a") (auto simp: Placeholder_init_def)
  then obtain ph where
    ph: "Placeholder_init re_compile (arg_name a) (arg_syntax a) (arg_regex a) = Inr ph"
    by blast
  have "\<exists>phs. make_placeholders re_compile ms = Inr phs \<and> length phs = length ms"
    using "3.IH" [OF ph] "3.prems" by simp
  then show ?case using ph by auto
qed

lemma init_subclass_members: "\<forall>m\<in>set (init_subclass mro). has_placeholder_args m"
  by (simp add: init_subclass_def)

section \<open>The claims\<close>

text \<open>
  C1, as amended. With the default tokens, \<^verbatim>\<open>format("{outer:{inner}}")\<close> passes the
  body \<^verbatim>\<open>inner\<close> to \<^verbatim>\<open>process\<close> first, at depth 1, and then, at depth 0, the body
  \<^verbatim>\<open>outer:\<close> followed by the replacement text of the inner placeholder. That
  replacement is the value the inner call returned, or the literal \<^verbatim>\<open>{inner}\<close>
  when it returned no value; the result is the replacement of the outer body.
\<close>

theorem nested_inner_first:
  assumes "P ''inner'' 1 = Inr v"
    and "P (''outer:'' @ replacement_of (default_formatter phs) ''inner'' v) 0 = Inr w"
  shows "format_with P (default_formatter phs) ''{outer:{inner}}'' =
    Some (Inr (replacement_of (default_formatter phs)
                 (''outer:'' @ replacement_of (default_formatter phs) ''inner'' v) w),
          [(''inner'', 1),
           (''outer:'' @ replacement_of (default_formatter phs) ''inner'' v, 0)])"
  using assms by (cases v; cases w) (simp_all add: scan_eval)

theorem nested_inner_first_witness:
  "format_with always_X (default_formatter []) ''{outer:{inner}}'' =
    Some (Inr ''X'', [(''inner'', 1), (''outer:X'', 0)])"
proof -
  have h1: "always_X ''inner'' 1 = Inr (Some ''X'')"
    by (simp add: always_X_def)
  have h2: "always_X (''outer:'' @ replacement_of (default_formatter []) ''inner'' (Some ''X'')) 0
      = Inr (Some ''X'')"
    by (simp add: always_X_def)
  show ?thesis
    using nested_inner_first [OF h1 h2] by (simp add: replacement_of_def)
qed

text \<open>
  C1, as stated, fails: when the inner placeholder has no value, the body passed for
  the outer one is \<^verbatim>\<open>outer:{inner}\<close>, with the opener and the closer of the inner
  placeholder in it.
\<close>

theorem nested_unresolved_inner_counterexample:
  "format_with outer_only (default_formatter []) ''{outer:{inner}}'' =
    Some (Inr ''O'', [(''inner'', 1), (''outer:{inner}'', 0)])"
  by (simp add: scan_eval outer_only_def)

text \<open>
  The form of C1 with other tokens: with the escape string \<^verbatim>\<open>:\<close> the inner opener
  is escaped, the inner placeholder is never resolved, and the only body passed is
  \<^verbatim>\<open>outer{inner\<close>.
\<close>

lemma nested_with_colon_escape:
  "format_with always_X
     \<lparr>opener = ''{'', closer = ''}'', escape = Some '':'', placeholders = []\<rparr>
     ''{outer:{inner}}'' = Some (Inr ''X}'', [(''outer{inner'', 0)])"
  by (simp add: scan_eval always_X_def)

text \<open>
  C2: \<^verbatim>\<open>Formatter.process\<close> should return what the first matching placeholder
  returns. On the formatter that \<^verbatim>\<open>__init__\<close> builds for a class with one placeholder
  function (no pattern, so it matches every body), it raises \<^verbatim>\<open>AttributeError\<close>: the
  method reads \<^verbatim>\<open>ph.func\<close>, and \<^verbatim>\<open>__init__\<close> has stored the function in
  \<^verbatim>\<open>ph.process\<close>.
\<close>

theorem process_raises_attribute_error:
  "(case Formatter_init literal_compile greeter_class ''{'' ''}'' (Some backslash) of
      Inl e \<Rightarrow> None
    | Inr fm \<Rightarrow> Some (Formatter_process fm ''x'' 0)) = Some (Inl AttributeError)"
  by (simp add: Formatter_init_def greeter_class_def placeholder_decorator_def init_subclass_def
        Placeholder_init_def Formatter_process_def backslash_def)

text \<open>
  C3: two escape strings and then a placeholder should give one escape string and
  the resolved placeholder. The loop drops the first escape string and still moves
  the index by its length, so it steps over the opener: whatever \<^verbatim>\<open>process\<close> would
  return, the result is the backslash followed by the literal \<^verbatim>\<open>{name}\<close>, and
  \<^verbatim>\<open>process\<close> is never called.
\<close>

theorem escaped_escape_skips_opener:
  "format_with P (default_formatter phs) (backslash @ backslash @ ''{name}'') =
    Some (Inr (backslash @ ''{name}''), [])"
  by (simp add: scan_eval)

text \<open>
  C5. In one call of \<^verbatim>\<open>format\<close>, on a formatter that \<^verbatim>\<open>__init__\<close> has built, the
  loop ends and no body is passed to \<^verbatim>\<open>process\<close> twice. In \<^verbatim>\<open>{a}{a}\<close> the body
  \<^verbatim>\<open>a\<close> is passed once and both placeholders get the replacement of that call: the
  value, or the literal \<^verbatim>\<open>{a}\<close> when there is no value.
\<close>

theorem resolved_once_per_body:
  "(Formatter_init rc cls op cl esc = Inr fm \<longrightarrow>
      (\<exists>r. format_with P fm text = Some r \<and> distinct (map fst (snd r))))
   \<and> (P ''a'' 0 = Inr v \<longrightarrow>
      format_with P (default_formatter phs) ''{a}{a}'' =
        Some (Inr (replacement_of (default_formatter phs) ''a'' v
                   @ replacement_of (default_formatter phs) ''a'' v), [(''a'', 0)]))"
proof (intro conjI impI)
  assume "Formatter_init rc cls op cl esc = Inr fm"
  then show "\<exists>r. format_with P fm text = Some r \<and> distinct (map fst (snd r))"
    by (intro calls_distinct init_well_formed)
next
  assume "P ''a'' 0 = Inr v"
  then show "format_with P (default_formatter phs) ''{a}{a}'' =
        Some (Inr (replacement_of (default_formatter phs) ''a'' v
                   @ replacement_of (default_formatter phs) ''a'' v), [(''a'', 0)])"
    by (cases v) (simp_all add: scan_eval)
qed

theorem resolved_once_per_body_witness:
  "(\<exists>r. format_with no_value (default_formatter []) ''{a}{b}{a}'' = Some r
         \<and> distinct (map fst (snd r)))
   \<and> format_with no_value (default_formatter []) ''{a}{a}'' =
        Some (Inr ''{a}{a}'', [(''a'', 0)])"
proof -
  have h1: "Formatter_init literal_compile (Subclass []) ''{'' ''}'' (Some backslash)
      = Inr (default_formatter [])"
    by (simp add: Formatter_init_def init_subclass_def default_formatter_def backslash_def)
  have h2: "no_value ''a'' 0 = Inr None"
    by (simp add: no_value_def)
  show ?thesis
    using resolved_once_per_body [of literal_compile "Subclass []" "''{''" "''}''"
        "Some backslash" "default_formatter []" no_value "''{a}{b}{a}''" None "[]"] h1 h2
    by (simp add: replacement_of_def default_formatter_def)
qed

text \<open>
  C6. For \<^verbatim>\<open>{a:{b:{c}}}\<close> with the default tokens, \<^verbatim>\<open>process\<close> is called with depth
  2 for the body of \<^verbatim>\<open>c\<close>, then with depth 1 for the body of \<^verbatim>\<open>b\<close>, then with depth
  0 for the body of \<^verbatim>\<open>a\<close>: the depth is the number of placeholders still open.
\<close>

theorem depth_counts_open_placeholders:
  assumes "P ''c'' 2 = Inr vc"
    and "rc = replacement_of (default_formatter phs) ''c'' vc"
    and "P (''b:'' @ rc) 1 = Inr vb"
    and "rb = replacement_of (default_formatter phs) (''b:'' @ rc) vb"
    and "P (''a:'' @ rb) 0 = Inr va"
  shows "format_with P (default_formatter phs) ''{a:{b:{c}}}'' =
    Some (Inr (replacement_of (default_formatter phs) (''a:'' @ rb) va),
          [(''c'', 2), (''b:'' @ rc, 1), (''a:'' @ rb, 0)])"
  using assms by (cases vc; cases vb; cases va) (simp_all add: scan_eval numeral_2_eq_2)

theorem depth_counts_open_placeholders_witness:
  "format_with always_X (default_formatter []) ''{a:{b:{c}}}'' =
    Some (Inr ''X'', [(''c'', 2), (''b:X'', 1), (''a:X'', 0)])"
proof -
  have h1: "always_X ''c'' 2 = Inr (Some ''X'')"
    by (simp add: always_X_def)
  have h2: "''X'' = replacement_of (default_formatter []) ''c'' (Some ''X'')"
    by (simp add: replacement_of_def)
  have h3: "always_X (''b:'' @ ''X'') 1 = Inr (Some ''X'')"
    by (simp add: always_X_def)
  have h4: "''X'' = replacement_of (default_formatter []) (''b:'' @ ''X'') (Some ''X'')"
    by (simp add: replacement_of_def)
  have h5: "always_X (''a:'' @ ''X'') 0 = Inr (Some ''X'')"
    by (simp add: always_X_def)
  show ?thesis
    using depth_counts_open_placeholders [OF h1 h2 h3 h4 h5] by (simp add: replacement_of_def)
qed

text \<open>
  C7. When the opener and the closer are the same token, no placeholder is opened
  inside an open one: on a formatter that \<^verbatim>\<open>__init__\<close> has built with such tokens,
  every call of \<^verbatim>\<open>process\<close> has depth 0. With the bar, \<^verbatim>\<open>|name|\<close> passes the body
  \<^verbatim>\<open>name\<close>, and in \<^verbatim>\<open>|a|b|\<close> the second bar closes the placeholder \<^verbatim>\<open>a\<close>: the
  result is its replacement followed by the literal \<^verbatim>\<open>b|\<close>.
\<close>

theorem same_token_closes:
  "(Formatter_init rc cls tok tok esc = Inr fm \<longrightarrow>
      (\<exists>r. format_with P fm text = Some r \<and> (\<forall>c\<in>set (snd r). snd c = 0)))
   \<and> (P ''name'' 0 = Inr v \<longrightarrow>
      format_with P (bar_formatter phs) ''|name|'' =
        Some (Inr (replacement_of (bar_formatter phs) ''name'' v), [(''name'', 0)]))
   \<and> (P ''a'' 0 = Inr w \<longrightarrow>
      format_with P (bar_formatter phs) ''|a|b|'' =
        Some (Inr (replacement_of (bar_formatter phs) ''a'' w @ ''b|''), [(''a'', 0)]))"
proof (intro conjI impI)
  assume init: "Formatter_init rc cls tok tok esc = Inr fm"
  have "opener fm = closer fm"
    using init_tokens [OF init] by simp
  then show "\<exists>r. format_with P fm text = Some r \<and> (\<forall>c\<in>set (snd r). snd c = 0)"
    by (intro same_token_flat init_well_formed [OF init])
next
  assume "P ''name'' 0 = Inr v"
  then show "format_with P (bar_formatter phs) ''|name|'' =
        Some (Inr (replacement_of (bar_formatter phs) ''name'' v), [(''name'', 0)])"
    by (cases v) (simp_all add: scan_eval)
next
  assume "P ''a'' 0 = Inr w"
  then show "format_with P (bar_formatter phs) ''|a|b|'' =
        Some (Inr (replacement_of (bar_formatter phs) ''a'' w @ ''b|''), [(''a'', 0)])"
    by (cases w) (simp_all add: scan_eval)
qed

theorem same_token_closes_witness:
  "(\<exists>r. format_with always_X (bar_formatter []) ''|a|b|c|'' = Some r
         \<and> (\<forall>c\<in>set (snd r). snd c = 0))
   \<and> format_with always_X (bar_formatter []) ''|name|'' = Some (Inr ''X'', [(''name'', 0)])
   \<and> format_with always_X (bar_formatter []) ''|a|b|'' = Some (Inr ''Xb|'', [(''a'', 0)])"
proof -
  have h1: "Formatter_init literal_compile (Subclass []) ''|'' ''|'' (Some backslash)
      = Inr (bar_formatter [])"
    by (simp add: Formatter_init_def init_subclass_def bar_formatter_def backslash_def)
  have h2: "always_X ''name'' 0 = Inr (Some ''X'')" and h3: "always_X ''a'' 0 = Inr (Some ''X'')"
    by (simp_all add: always_X_def)
  show ?thesis
    using same_token_closes [of literal_compile "Subclass []" "''|''" "Some backslash"
        "bar_formatter []" always_X "''|a|b|c|''" "Some ''X''" "[]" "Some ''X''"] h1 h2 h3
    by (simp add: replacement_of_def)
qed

text \<open>
  C4, as amended. A text in which neither the opener, nor the closer, nor the
  escape string (when there is one) occurs comes back unchanged, and \<^verbatim>\<open>process\<close>
  is not called.
\<close>

theorem plain_text_unchanged:
  assumes no: "\<not> contains text (opener fm)" and nc: "\<not> contains text (closer fm)"
    and ne: "\<forall>e. escape fm = Some e \<longrightarrow> \<not> contains text e"
  shows "format_with P fm text = Some (Inr text, [])"
proof (cases "text = []")
  case True
  have "scan P fm (initial []) = Some (Inr [], [])"
    by (subst scan.simps) (simp add: initial_def)
  then show ?thesis using True by (simp add: format_with_def)
next
  case False
  have c: "contains text []" using contains_empty [OF False] .
  have o: "opener fm \<noteq> []" using no c by auto
  have cl: "closer fm \<noteq> []" using nc c by auto
  have "escape fm \<noteq> Some []" using ne c by auto
  then have wf: "well_formed fm"
    using o cl by (simp add: well_formed_def)
  have order: "\<forall>i<length text. \<forall>j<length text.
        slice text i (i + length (opener fm)) = opener fm \<longrightarrow>
        slice text j (j + length (closer fm)) = closer fm \<longrightarrow> j < i"
    using no unfolding contains_def by blast
  show ?thesis
    by (rule literal_text_unchanged [OF wf ne order])
qed

theorem plain_text_unchanged_witness:
  "format_with always_X (default_formatter []) ''hello'' = Some (Inr ''hello'', [])"
proof -
  have h1: "\<not> contains ''hello'' (opener (default_formatter []))"
    by (simp add: contains_def slice_def default_formatter_def All_less_Suc)
  have h2: "\<not> contains ''hello'' (closer (default_formatter []))"
    by (simp add: contains_def slice_def default_formatter_def All_less_Suc)
  have h3: "\<forall>e. escape (default_formatter []) = Some e \<longrightarrow> \<not> contains ''hello'' e"
    by (simp add: contains_def slice_def default_formatter_def backslash_def All_less_Suc)
  show ?thesis
    using plain_text_unchanged [OF h1 h2 h3] .
qed

text \<open>
  C4, as stated, fails: a text of two backslashes holds neither the opener nor the
  closer, and \<^verbatim>\<open>format\<close> returns one backslash.
\<close>

theorem plain_text_escape_pair_counterexample:
  "\<not> contains (backslash @ backslash) ''{'' \<and> \<not> contains (backslash @ backslash) ''}''
   \<and> format_with always_X (default_formatter []) (backslash @ backslash)
       = Some (Inr backslash, [])
   \<and> backslash \<noteq> backslash @ backslash"
  by (simp add: scan_eval contains_def All_less_Suc)

text \<open>
  C8. On a formatter that \<^verbatim>\<open>__init__\<close> has built, \<^verbatim>\<open>format\<close> ends for every text,
  and when it raises, the exception is the one that its last call of \<^verbatim>\<open>process\<close>
  raised: the syntax of the text never makes it fail. When no closer stands behind
  an opener (no opener has a closer to match, no closer an opener) and the escape
  string does not occur, the text comes back unchanged. \<^verbatim>\<open>format("{a")\<close> and
  \<^verbatim>\<open>format("a}")\<close> return their input.
\<close>

theorem unbalanced_is_literal:
  "(Formatter_init rc cls op cl esc = Inr fm \<longrightarrow>
      (\<exists>r. format_with P fm text = Some r \<and>
         (\<forall>e. fst r = Inl e \<longrightarrow>
            snd r \<noteq> [] \<and> P (fst (last (snd r))) (snd (last (snd r))) = Inl e)))
   \<and> (Formatter_init rc cls op cl esc = Inr fm
       \<and> (\<forall>e. esc = Some e \<longrightarrow> \<not> contains text e)
       \<and> (\<forall>i<length text. \<forall>j<length text.
             slice text i (i + length op) = op \<longrightarrow> slice text j (j + length cl) = cl \<longrightarrow> j < i)
      \<longrightarrow> format_with P fm text = Some (Inr text, []))
   \<and> format_with P (default_formatter phs) ''{a'' = Some (Inr ''{a'', [])
   \<and> format_with P (default_formatter phs) ''a}'' = Some (Inr ''a}'', [])"
proof (intro conjI impI)
  assume "Formatter_init rc cls op cl esc = Inr fm"
  then show "\<exists>r. format_with P fm text = Some r \<and>
         (\<forall>e. fst r = Inl e \<longrightarrow>
            snd r \<noteq> [] \<and> P (fst (last (snd r))) (snd (last (snd r))) = Inl e)"
    by (intro fails_only_by_resolver init_well_formed)
next
  assume a: "Formatter_init rc cls op cl esc = Inr fm
       \<and> (\<forall>e. esc = Some e \<longrightarrow> \<not> contains text e)
       \<and> (\<forall>i<length text. \<forall>j<length text.
             slice text i (i + length op) = op \<longrightarrow> slice text j (j + length cl) = cl \<longrightarrow> j < i)"
  then have init: "Formatter_init rc cls op cl esc = Inr fm" by simp
  have tok: "opener fm = op" "closer fm = cl" "escape fm = esc"
    using init_tokens [OF init] by simp_all
  show "format_with P fm text = Some (Inr text, [])"
    using a by (intro literal_text_unchanged init_well_formed [OF init]) (simp_all add: tok)
next
  show "format_with P (default_formatter phs) ''{a'' = Some (Inr ''{a'', [])"
    by (simp add: scan_eval)
  show "format_with P (default_formatter phs) ''a}'' = Some (Inr ''a}'', [])"
    by (simp add: scan_eval)
qed

theorem unbalanced_is_literal_witness:
  "(\<exists>r. format_with always_X (default_formatter []) ''}a{'' = Some r)
   \<and> format_with always_X (default_formatter []) ''}a{'' = Some (Inr ''}a{'', [])"
proof -
  have h1: "Formatter_init literal_compile (Subclass []) ''{'' ''}'' (Some backslash)
      = Inr (default_formatter [])"
    by (simp add: Formatter_init_def init_subclass_def default_formatter_def backslash_def)
  have h2: "\<forall>e. Some backslash = Some e \<longrightarrow> \<not> contains ''}a{'' e"
    by (simp add: contains_def slice_def backslash_def All_less_Suc)
  have h3: "\<forall>i<length ''}a{''. \<forall>j<length ''}a{''.
      slice ''}a{'' i (i + length ''{'') = ''{'' \<longrightarrow> slice ''}a{'' j (j + length ''}'') = ''}''
      \<longrightarrow> j < i"
    by (simp add: slice_def All_less_Suc)
  show ?thesis
    using unbalanced_is_literal [of literal_compile "Subclass []" "''{''" "''}''"
        "Some backslash" "default_formatter []" always_X "''}a{''" "[]"] h1 h2 h3
    by blast
qed

text \<open>
  C9, as amended. \<^verbatim>\<open>Formatter.__init__\<close> raises \<^verbatim>\<open>ValueError\<close> exactly when the
  opener is empty, the closer is empty, the escape string is given and empty, or
  the escape string equals the opener or the closer. With any other texts, the
  construction of an object of a subclass of \<^verbatim>\<open>Formatter\<close> whose placeholder
  patterns all compile succeeds, and the formatter holds the three tokens and one
  placeholder for each declared function.
\<close>

theorem init_value_error_iff:
  "(Formatter_init rc cls op cl esc = Inl ValueError \<longleftrightarrow>
      (op = [] \<or> cl = [] \<or> esc = Some [] \<or> esc = Some op \<or> esc = Some cl))
   \<and> (\<not> (op = [] \<or> cl = [] \<or> esc = Some [] \<or> esc = Some op \<or> esc = Some cl)
       \<and> (\<forall>m\<in>set (init_subclass mro). \<forall>a f r.
              m = PlaceholderFunc a f \<longrightarrow> arg_regex a = Some r \<longrightarrow> r \<noteq> [] \<longrightarrow> rc r \<noteq> None)
      \<longrightarrow> (\<exists>phs. Formatter_init rc (Subclass mro) op cl esc
                   = Inr \<lparr>opener = op, closer = cl, escape = esc, placeholders = phs\<rparr>
                 \<and> length phs = length (init_subclass mro)))"
proof (intro conjI impI)
  show "Formatter_init rc cls op cl esc = Inl ValueError \<longleftrightarrow>
      (op = [] \<or> cl = [] \<or> esc = Some [] \<or> esc = Some op \<or> esc = Some cl)"
    using make_placeholders_no_ValueError [of rc]
    by (auto simp: Formatter_init_def split: option.splits sum.splits)
next
  assume a: "\<not> (op = [] \<or> cl = [] \<or> esc = Some [] \<or> esc = Some op \<or> esc = Some cl)
       \<and> (\<forall>m\<in>set (init_subclass mro). \<forall>a f r.
              m = PlaceholderFunc a f \<longrightarrow> arg_regex a = Some r \<longrightarrow> r \<noteq> [] \<longrightarrow> rc r \<noteq> None)"
  then obtain phs where "make_placeholders rc (init_subclass mro) = Inr phs"
    and "length phs = length (init_subclass mro)"
    using make_placeholders_ok [of "init_subclass mro" rc] init_subclass_members [of mro]
    by blast
  then show "\<exists>phs. Formatter_init rc (Subclass mro) op cl esc
                   = Inr \<lparr>opener = op, closer = cl, escape = esc, placeholders = phs\<rparr>
                 \<and> length phs = length (init_subclass mro)"
    using a by (simp add: Formatter_init_def)
qed

theorem init_value_error_iff_witness:
  "Formatter_init literal_compile greeter_class [] ''}'' None = Inl ValueError
   \<and> (\<exists>phs. Formatter_init literal_compile greeter_class ''{'' ''}'' (Some backslash)
              = Inr \<lparr>opener = ''{'', closer = ''}'', escape = Some backslash, placeholders = phs\<rparr>
            \<and> length phs = 1)"
proof -
  have h: "\<not> (''{'' = [] \<or> ''}'' = [] \<or> Some backslash = Some [] \<or> Some backslash = Some ''{''
              \<or> Some backslash = Some ''}'')
       \<and> (\<forall>m\<in>set (init_subclass [[placeholder_decorator None None None ''greet'' always_X]]).
            \<forall>a f r. m = PlaceholderFunc a f \<longrightarrow> arg_regex a = Some r \<longrightarrow> r \<noteq> []
              \<longrightarrow> literal_compile r \<noteq> None)"
    by (simp add: backslash_def literal_compile_def)
  have l: "length (init_subclass [[placeholder_decorator None None None ''greet'' always_X]]) = 1"
    by (simp add: init_subclass_def placeholder_decorator_def)
  show ?thesis
    using init_value_error_iff [of literal_compile greeter_class "[]" "''}''" None
        "[[placeholder_decorator None None None ''greet'' always_X]]"]
      init_value_error_iff [of literal_compile greeter_class "''{''" "''}''" "Some backslash"
        "[[placeholder_decorator None None None ''greet'' always_X]]"] h l
    by (simp add: greeter_class_def)
qed

text \<open>
  C9, as stated, fails: with texts that pass every check, the construction of an
  object of \<^verbatim>\<open>Formatter\<close> itself does not succeed; it raises
  \<^verbatim>\<open>AttributeError\<close>.
\<close>

theorem init_base_class_counterexample:
  "Formatter_init literal_compile FormatterBase ''{'' ''}'' (Some backslash) = Inl AttributeError"
  by (simp add: Formatter_init_def backslash_def)

text \<open>
  C10, as amended. The construction of an object of \<^verbatim>\<open>Formatter\<close> itself never
  succeeds: it raises \<^verbatim>\<open>ValueError\<close> when the tokens fail a check of
  \<^verbatim>\<open>__init__\<close>, which come first, and \<^verbatim>\<open>AttributeError\<close> for every other
  arguments. Every formatter that is constructed is an object of a subclass.
\<close>

theorem base_class_not_constructible:
  "Formatter_init rc FormatterBase op cl esc =
      (if op = [] \<or> cl = [] \<or> esc = Some [] \<or> esc = Some op \<or> esc = Some cl
       then Inl ValueError else Inl AttributeError)
   \<and> (Formatter_init rc cls op cl esc = Inr fm \<longrightarrow> (\<exists>mro. cls = Subclass mro))"
  by (cases cls) (auto simp: Formatter_init_def)

theorem base_class_not_constructible_witness:
  "Formatter_init literal_compile FormatterBase ''{'' ''}'' None = Inl AttributeError
   \<and> (\<exists>mro. greeter_class = Subclass mro)"
proof -
  have h: "Formatter_init literal_compile greeter_class ''{'' ''}'' None =
      Inr \<lparr>opener = ''{'', closer = ''}'', escape = None,
           placeholders = [\<lparr>ph_name = ''greet'', ph_syntax = None, ph_pattern = None,
                            ph_process = always_X, ph_func = None\<rparr>]\<rparr>"
    by (simp add: Formatter_init_def greeter_class_def placeholder_decorator_def
          init_subclass_def Placeholder_init_def)
  show ?thesis
    using base_class_not_constructible [of literal_compile "''{''" "''}''" None greeter_class] h
    by simp
qed

text \<open>
  C10, as stated, fails: with an empty opener the construction of an object of
  \<^verbatim>\<open>Formatter\<close> raises \<^verbatim>\<open>ValueError\<close>, not \<^verbatim>\<open>AttributeError\<close>.
\<close>

theorem base_class_value_error_counterexample:
  "Formatter_init literal_compile FormatterBase [] ''}'' None = Inl ValueError"
  by (simp add: Formatter_init_def)

end
